theory Spec2Isabelle
  imports Main "HOL-Library.Word"
begin

section \<open>Values of the JavaScript program\<close>

text \<open>
  The program of \<^verbatim>\<open>src/index.js\<close> handles Node \<^verbatim>\<open>Buffer\<close>s (byte
  sequences), JavaScript strings, and \<^verbatim>\<open>null\<close> / \<^verbatim>\<open>undefined\<close>.
  A field of a \<^verbatim>\<open>PeerId\<close> holds whatever value the caller of the constructor
  passed, so the fields for keys carry a tagged JavaScript value.  Every
  \<^verbatim>\<open>throw\<close> is a value \<open>Inl e\<close> of the result type.
\<close>

type_synonym byte = "8 word"

type_synonym bytes = "byte list"

datatype error =
    ConstructionError
  | EncodingError
  | FormatError
  | DecodeError
  | ProviderError
  | TypeError

datatype jsval = Buf bytes | Str string | Null | Undefined

section \<open>The hex codec of Buffer\<close>

text \<open>
  \<^verbatim>\<open>buf.toString('hex')\<close> writes two lower-case digits per byte.
  \<^verbatim>\<open>new Buffer(str, 'hex')\<close> reads pairs of digits (either case) and stops at the
  first pair that is not two hex digits, keeping the bytes read so far; it does not
  throw for a bad digit.  A string of odd length throws
  \<^verbatim>\<open>TypeError('Invalid hex string')\<close> in the Node releases of the time of this
  program and loses its last character in the later ones: \<open>hex_mode\<close> selects
  between the two, and the error is the \<open>EncodingError\<close> of the specification.
\<close>

datatype hex_mode = OddLengthThrows | OddLengthTruncates

definition hex_digits :: string where
  "hex_digits = ''0123456789abcdef''"

definition hex_digit :: "nat \<Rightarrow> char" where
  "hex_digit d = hex_digits ! d"

fun hex_encode :: "bytes \<Rightarrow> string" where
  "hex_encode [] = []"
| "hex_encode (b # bs) =
     hex_digit (unat b div 16) # hex_digit (unat b mod 16) # hex_encode bs"

definition hex2bin :: "char \<Rightarrow> nat option" where
  "hex2bin c =
     (let n = (of_char c :: nat) in
      if 48 \<le> n \<and> n \<le> 57 then Some (n - 48)
      else if 65 \<le> n \<and> n \<le> 70 then Some (n - 55)
      else if 97 \<le> n \<and> n \<le> 102 then Some (n - 87)
      else None)"

fun hex_decode :: "string \<Rightarrow> bytes" where
  "hex_decode (c # d # s) =
     (case (hex2bin c, hex2bin d) of
        (Some a, Some b) \<Rightarrow> of_nat (a * 16 + b) # hex_decode s
      | _ \<Rightarrow> [])"
| "hex_decode _ = []"

definition Buffer_from_hex :: "hex_mode \<Rightarrow> string \<Rightarrow> error + bytes" where
  "Buffer_from_hex m s =
     (if m = OddLengthThrows \<and> odd (length s) then Inl EncodingError
      else Inr (hex_decode s))"

text \<open>
  \<^verbatim>\<open>x.toString('hex')\<close> on the value of a field: a Buffer gives its hex digits; a
  string is returned as it is (\<^verbatim>\<open>String.prototype.toString\<close> takes no argument);
  \<^verbatim>\<open>null\<close> and \<^verbatim>\<open>undefined\<close> have no method and the call throws.
\<close>

fun toString_hex :: "jsval \<Rightarrow> error + string" where
  "toString_hex (Buf b) = Inr (hex_encode b)"
| "toString_hex (Str s) = Inr s"
| "toString_hex Null = Inl TypeError"
| "toString_hex Undefined = Inl TypeError"

section \<open>The base64 and binary codecs of Buffer\<close>

text \<open>
  \<^verbatim>\<open>buf.toString('base64')\<close> writes four characters of the standard alphabet
  for every three bytes and pads the last group with \<^verbatim>\<open>=\<close>.
  \<^verbatim>\<open>new Buffer(str, 'base64')\<close> never throws: it stops at the first
  \<^verbatim>\<open>=\<close>, skips every character outside the alphabet (the URL-safe
  \<^verbatim>\<open>-\<close> and \<^verbatim>\<open>_\<close> count as 62 and 63) and drops the bits of an
  incomplete last byte.
\<close>

definition index_of :: "'a list \<Rightarrow> 'a \<Rightarrow> nat option" where
  "index_of xs = map_of (zip xs [0..<length xs])"

definition b64_alphabet :: string where
  "b64_alphabet =
     ''ABCDEFGHIJKLMNOPQRSTUVWXYZabcdefghijklmnopqrstuvwxyz0123456789+/''"

definition b64_char :: "nat \<Rightarrow> char" where
  "b64_char d = b64_alphabet ! d"

definition unbase64 :: "char \<Rightarrow> nat option" where
  "unbase64 c =
     (if c = CHR ''-'' then Some 62
      else if c = CHR ''_'' then Some 63
      else index_of b64_alphabet c)"

fun base64_encode :: "bytes \<Rightarrow> string" where
  "base64_encode (x # y # z # bs) =
     b64_char (unat x div 4)
     # b64_char (unat x mod 4 * 16 + unat y div 16)
     # b64_char (unat y mod 16 * 4 + unat z div 64)
     # b64_char (unat z mod 64)
     # base64_encode bs"
| "base64_encode [x, y] =
     [b64_char (unat x div 4),
      b64_char (unat x mod 4 * 16 + unat y div 16),
      b64_char (unat y mod 16 * 4),
      CHR ''='']"
| "base64_encode [x] =
     [b64_char (unat x div 4), b64_char (unat x mod 4 * 16), CHR ''='', CHR ''='']"
| "base64_encode [] = []"

fun b64_groups :: "nat list \<Rightarrow> bytes" where
  "b64_groups (a # b # c # d # r) =
     of_nat (a * 4 + b div 16)
     # of_nat (b mod 16 * 16 + c div 4)
     # of_nat (c mod 4 * 64 + d)
     # b64_groups r"
| "b64_groups [a, b, c] =
     [of_nat (a * 4 + b div 16), of_nat (b mod 16 * 16 + c div 4)]"
| "b64_groups [a, b] = [of_nat (a * 4 + b div 16)]"
| "b64_groups [a] = []"
| "b64_groups [] = []"

definition b64_sextets :: "string \<Rightarrow> nat list" where
  "b64_sextets s = List.map_filter unbase64 (takeWhile (\<lambda>c. c \<noteq> CHR ''='') s)"

definition base64_decode :: "string \<Rightarrow> bytes" where
  "base64_decode s = b64_groups (b64_sextets s)"

text \<open>
  The \<^verbatim>\<open>'binary'\<close> encoding maps a byte to the character with that code and
  back; node-forge carries DER as such strings.
\<close>

definition toString_binary :: "bytes \<Rightarrow> string" where
  "toString_binary b = map (\<lambda>x. char_of (unat x)) b"

definition Buffer_from_binary :: "string \<Rightarrow> bytes" where
  "Buffer_from_binary s = map (\<lambda>c. of_nat (of_char c)) s"

text \<open>
  \<^verbatim>\<open>new Buffer(v, 'base64')\<close> on a value: a string is decoded; a Buffer is
  copied, the encoding being ignored; \<^verbatim>\<open>null\<close> and \<^verbatim>\<open>undefined\<close> throw.
\<close>

fun Buffer_new_base64 :: "jsval \<Rightarrow> error + bytes" where
  "Buffer_new_base64 (Str s) = Inr (base64_decode s)"
| "Buffer_new_base64 (Buf b) = Inr b"
| "Buffer_new_base64 Null = Inl TypeError"
| "Buffer_new_base64 Undefined = Inl TypeError"

section \<open>The base58 codec\<close>

text \<open>
  \<^verbatim>\<open>bs58\<close> writes a byte sequence as its value in base 58, most significant
  digit first, over the Bitcoin alphabet, with one \<^verbatim>\<open>1\<close> in front for every
  leading zero byte.  Decoding throws for a character outside the alphabet.
\<close>

definition b58_alphabet :: string where
  "b58_alphabet = ''123456789ABCDEFGHJKLMNPQRSTUVWXYZabcdefghijkmnopqrstuvwxyz''"

definition b58_char :: "nat \<Rightarrow> char" where
  "b58_char d = b58_alphabet ! d"

function to_digits :: "nat \<Rightarrow> nat \<Rightarrow> nat list" where
  "to_digits b n = (if n = 0 \<or> b \<le> 1 then [] else to_digits b (n div b) @ [n mod b])"
  by pat_completeness auto

termination
  by (relation "measure (\<lambda>(b, n). n)") auto

declare to_digits.simps [simp del]

definition from_digits :: "nat \<Rightarrow> nat list \<Rightarrow> nat" where
  "from_digits b ds = foldl (\<lambda>acc d. acc * b + d) 0 ds"

definition base58_encode :: "bytes \<Rightarrow> string" where
  "base58_encode buf =
     replicate (length (takeWhile (\<lambda>x. x = 0) buf)) (CHR ''1'')
     @ map b58_char (to_digits 58 (from_digits 256 (map unat buf)))"

fun b58_values :: "string \<Rightarrow> nat list option" where
  "b58_values [] = Some []"
| "b58_values (c # s) =
     (case index_of b58_alphabet c of
        None \<Rightarrow> None
      | Some d \<Rightarrow> map_option ((#) d) (b58_values s))"

definition base58_decode :: "string \<Rightarrow> error + bytes" where
  "base58_decode s =
     (case b58_values s of
        None \<Rightarrow> Inl EncodingError
      | Some ds \<Rightarrow>
          Inr (replicate (length (takeWhile (\<lambda>d. d = 0) ds)) 0
               @ map of_nat (to_digits 256 (from_digits 58 ds))))"

section \<open>The key record codec\<close>

text \<open>
  Modelled from the spec: \<^verbatim>\<open>protos/crypto.proto\<close> and the encoders and
  decoders that \<^verbatim>\<open>protocol-buffers\<close> compiles from it
  (\<^verbatim>\<open>pbCrypto.PublicKey\<close>, \<^verbatim>\<open>pbCrypto.PrivateKey\<close>) are not among the
  sources.  The spec gives one wire schema for both messages: a two-field tagged
  binary message with \<open>Type\<close> (a small integer enum, \<open>RSA = 0\<close>) and \<open>Data\<close> (a
  variable-length byte field).  On the wire a field is a varint prefix (field number
  times eight plus the wire type) and its value: a varint for \<open>Type\<close> (prefix 8), a
  varint length and that many bytes for \<open>Data\<close> (prefix 18).
\<close>

definition RSA :: nat where
  "RSA = 0"

record key_record =
  Type :: nat
  Data :: bytes

fun varint_encode :: "nat \<Rightarrow> bytes" where
  "varint_encode n =
     (if n < 128 then [of_nat n]
      else of_nat (n mod 128 + 128) # varint_encode (n div 128))"

declare varint_encode.simps [simp del]

fun varint_decode :: "bytes \<Rightarrow> (nat \<times> bytes) option" where
  "varint_decode [] = None"
| "varint_decode (b # bs) =
     (if unat b < 128 then Some (unat b, bs)
      else case varint_decode bs of
             None \<Rightarrow> None
           | Some (n, r) \<Rightarrow> Some (unat b - 128 + 128 * n, r))"

text \<open>
  Modelled from the spec: the encoders \<^verbatim>\<open>pbCrypto.PublicKey.encode\<close> and
  \<^verbatim>\<open>pbCrypto.PrivateKey.encode\<close>, which are not among the sources.  Both write
  the one schema of the spec: the \<open>Type\<close> field, then the \<open>Data\<close> field.
\<close>

definition pb_encode :: "key_record \<Rightarrow> bytes" where
  "pb_encode r =
     varint_encode 8 @ varint_encode (Type r)
     @ varint_encode 18 @ varint_encode (length (Data r)) @ Data r"

definition PublicKey_encode :: "key_record \<Rightarrow> bytes" where
  "PublicKey_encode r = pb_encode r"

definition PrivateKey_encode :: "key_record \<Rightarrow> bytes" where
  "PrivateKey_encode r = pb_encode r"

text \<open>
  Modelled from the spec: the decoder \<^verbatim>\<open>pbCrypto.PrivateKey.decode\<close>, which is not
  among the sources.  The spec's sentence on its failures does not hold of the
  decoder that the program runs, so the model follows the decoder that
  \<^verbatim>\<open>protocol-buffers\<close> generates for the schema: a loop that reads a varint
  prefix, takes \<^verbatim>\<open>prefix >> 3\<close> as the field number whatever the wire type,
  reads a varint for field 1 and a length and a slice of the buffer for field 2 (a
  slice past the end is cut to the bytes that are there), skips every other field
  by its wire type \<^verbatim>\<open>prefix & 7\<close>, and at the end of the input throws unless both
  fields were found.  Two points differ between releases of the library and are
  parameters: whether the enum decoder rejects a value that the schema does not
  name, and what the decoder does when the input ends inside a varint (the result
  is given as a function of the fields found and the bytes left).  Varints are read
  as naturals of any size; the library computes them as doubles, and some releases
  refuse a varint of more than eight bytes, which no length of a Buffer needs.
\<close>

record pb_library =
  pb_enum_checked :: bool
  pb_cut_varint :: "nat option \<Rightarrow> bytes option \<Rightarrow> bytes \<Rightarrow> error + key_record"

text \<open>\<^verbatim>\<open>prefix >> 3\<close> works on the prefix as a signed 32-bit integer.\<close>

definition pb_tag :: "nat \<Rightarrow> int" where
  "pb_tag prefix = sint (of_nat prefix :: 32 word) div 8"

text \<open>
  Skipping a field of another number by its wire type: a varint, eight bytes, a
  length and that many bytes, or four bytes; groups and the wire types 6 and 7
  throw.  \<open>None\<close> stands for a varint that the end of the input cuts.
\<close>

definition pb_skip :: "nat \<Rightarrow> bytes \<Rightarrow> (error + bytes) option" where
  "pb_skip wire r =
     (if wire = 0 then
        (case varint_decode r of None \<Rightarrow> None | Some (v, r') \<Rightarrow> Some (Inr r'))
      else if wire = 1 then Some (Inr (drop 8 r))
      else if wire = 2 then
        (case varint_decode r of None \<Rightarrow> None | Some (len, r') \<Rightarrow> Some (Inr (drop len r')))
      else if wire = 5 then Some (Inr (drop 4 r))
      else Some (Inl FormatError))"

function decode_fields ::
  "pb_library \<Rightarrow> nat option \<Rightarrow> bytes option \<Rightarrow> bytes \<Rightarrow> error + key_record" where
  "decode_fields L ty da bs =
     (if bs = [] then
        (case (ty, da) of
           (Some t, Some d) \<Rightarrow> Inr \<lparr>Type = t, Data = d\<rparr>
         | _ \<Rightarrow> Inl FormatError)
      else
        (case varint_decode bs of
           None \<Rightarrow> pb_cut_varint L ty da bs
         | Some (prefix, r) \<Rightarrow>
             if pb_tag prefix = 1 then
               (case varint_decode r of
                  None \<Rightarrow> pb_cut_varint L ty da bs
                | Some (t, r') \<Rightarrow>
                    if pb_enum_checked L \<and> t \<noteq> RSA then Inl FormatError
                    else decode_fields L (Some t) da r')
             else if pb_tag prefix = 2 then
               (case varint_decode r of
                  None \<Rightarrow> pb_cut_varint L ty da bs
                | Some (len, r') \<Rightarrow>
                    decode_fields L ty (Some (take len r')) (drop len r'))
             else
               (case pb_skip (prefix mod 8) r of
                  None \<Rightarrow> pb_cut_varint L ty da bs
                | Some (Inl e) \<Rightarrow> Inl e
                | Some (Inr r') \<Rightarrow> decode_fields L ty da r')))"
  by pat_completeness auto

termination
proof -
  have shorter: "length r < length bs"
    if "varint_decode bs = Some (n, r)" for bs r :: bytes and n :: nat
    using that by (induction bs arbitrary: n r) (auto split: if_splits option.splits)
  have skipped: "length r' \<le> length r"
    if "pb_skip w r = Some (Inr r')" for r r' :: bytes and w :: nat
    using that shorter [of r]
    by (auto simp add: pb_skip_def split: if_splits option.splits dest!: less_imp_le)
  show ?thesis
  proof (relation "measure (\<lambda>(L :: pb_library, ty :: nat option, da :: bytes option, bs :: bytes). length bs)")
  qed (auto dest!: shorter skipped)
qed

declare decode_fields.simps [simp del]

definition PrivateKey_decode :: "pb_library \<Rightarrow> bytes \<Rightarrow> error + key_record" where
  "PrivateKey_decode L buf = decode_fields L None None buf"

section \<open>The external providers\<close>

text \<open>
  node-forge (RSA key generation, ASN.1 and DER) and multihashing are black boxes
  of the program, so they are parameters of the model: a record of functions, the
  ASN.1 object being any type.  The record also holds the release of
  \<^verbatim>\<open>protocol-buffers\<close> that the program is run with.  \<^verbatim>\<open>forge.asn1.toDer\<close> yields, and
  \<^verbatim>\<open>forge.asn1.fromDer\<close> reads, DER as a binary string.  Key generation draws
  random primes: the field \<open>generateKeyPair\<close> stands for one outcome, and a theorem
  for every record of providers holds for every outcome.
\<close>

record rsa_public =
  pub_n :: nat
  pub_e :: nat

record rsa_private =
  priv_n :: nat
  priv_e :: nat
  priv_d :: nat
  priv_p :: nat
  priv_q :: nat
  priv_dP :: nat
  priv_dQ :: nat
  priv_qInv :: nat

record rsa_keypair =
  pair_publicKey :: rsa_public
  pair_privateKey :: rsa_private

record 'asn providers =
  generateKeyPair :: "nat \<Rightarrow> nat \<Rightarrow> error + rsa_keypair"
  publicKeyToAsn1 :: "rsa_public \<Rightarrow> 'asn"
  privateKeyToAsn1 :: "rsa_private \<Rightarrow> 'asn"
  privateKeyFromAsn1 :: "'asn \<Rightarrow> error + rsa_private"
  asn1_toDer :: "'asn \<Rightarrow> string"
  asn1_fromDer :: "string \<Rightarrow> error + 'asn"
  multihashing :: "bytes \<Rightarrow> string \<Rightarrow> bytes"
  protobuf :: pb_library

text \<open>\<^verbatim>\<open>forge.pki.rsa.setPublicKey(n, e)\<close> builds the public key of a modulus and an exponent.\<close>

definition setPublicKey :: "nat \<Rightarrow> nat \<Rightarrow> rsa_public" where
  "setPublicKey n e = \<lparr>pub_n = n, pub_e = e\<rparr>"

section \<open>PeerId\<close>

text \<open>
  The constructor stores its three arguments as they are.  The factories below
  always call it with \<^verbatim>\<open>new\<close>, so its guard
  (\<^verbatim>\<open>Id must be called with new\<close>) never fires; an argument that is left out
  is \<^verbatim>\<open>undefined\<close>.  The field \<^verbatim>\<open>id\<close> is called \<open>id_bytes\<close> here: in
  every factory it is a Buffer.
\<close>

record PeerId =
  id_bytes :: bytes
  privKey :: jsval
  pubKey :: jsval

definition PeerId_new :: "bytes \<Rightarrow> jsval \<Rightarrow> jsval \<Rightarrow> PeerId" where
  "PeerId_new i priv pub = \<lparr>id_bytes = i, privKey = priv, pubKey = pub\<rparr>"

record peer_json =
  json_id :: string
  json_privKey :: string
  json_pubKey :: string

definition toB58String :: "PeerId \<Rightarrow> string" where
  "toB58String self = base58_encode (id_bytes self)"

definition toHexString :: "PeerId \<Rightarrow> string" where
  "toHexString self = hex_encode (id_bytes self)"

definition toBytes :: "PeerId \<Rightarrow> bytes" where
  "toBytes self = id_bytes self"

definition toJSON :: "PeerId \<Rightarrow> error + peer_json" where
  "toJSON self =
     (case toString_hex (privKey self) of
        Inl e \<Rightarrow> Inl e
      | Inr priv \<Rightarrow>
          (case toString_hex (pubKey self) of
             Inl e \<Rightarrow> Inl e
           | Inr pub \<Rightarrow>
               Inr \<lparr>json_id = hex_encode (id_bytes self),
                    json_privKey = priv, json_pubKey = pub\<rparr>))"

definition toPrint :: "PeerId \<Rightarrow> error + peer_json" where
  "toPrint self =
     (case toString_hex (privKey self) of
        Inl e \<Rightarrow> Inl e
      | Inr priv \<Rightarrow>
          (case toString_hex (pubKey self) of
             Inl e \<Rightarrow> Inl e
           | Inr pub \<Rightarrow>
               Inr \<lparr>json_id = toB58String self,
                    json_privKey = priv, json_pubKey = pub\<rparr>))"

section \<open>Marshalling keys\<close>

definition keyUnmarshal :: "pb_library \<Rightarrow> bytes \<Rightarrow> error + key_record" where
  "keyUnmarshal L key = PrivateKey_decode L key"

text \<open>
  \<^verbatim>\<open>keyMarshal\<close> leaves \<^verbatim>\<open>epb\<close> undefined (\<open>None\<close>) for a type other than
  \<^verbatim>\<open>'Public'\<close> and \<^verbatim>\<open>'Private'\<close>.
\<close>

definition keyMarshal :: "bytes \<Rightarrow> string \<Rightarrow> bytes option" where
  "keyMarshal data type =
     (if type = ''Public'' then Some (PublicKey_encode \<lparr>Type = RSA, Data = data\<rparr>)
      else if type = ''Private'' then Some (PrivateKey_encode \<lparr>Type = RSA, Data = data\<rparr>)
      else None)"

definition formatKey :: "'asn providers \<Rightarrow> 'asn \<Rightarrow> string \<Rightarrow> error + string" where
  "formatKey F key type =
     (let der = asn1_toDer F key;
          nDerBuf = Buffer_from_binary der
      in case keyMarshal nDerBuf type of
           None \<Rightarrow> Inl TypeError
         | Some marsheledKey \<Rightarrow> Inr (base64_encode marsheledKey))"

section \<open>The factories\<close>

record create_opts =
  bits :: "nat option"

text \<open>\<^verbatim>\<open>opts = opts || {}\<close> and \<^verbatim>\<open>opts.bits = opts.bits || 2048\<close>: a missing or zero size is 2048.\<close>

definition opts_bits :: "create_opts option \<Rightarrow> nat" where
  "opts_bits opts =
     (case opts of
        None \<Rightarrow> 2048
      | Some r \<Rightarrow>
          (case bits r of
             None \<Rightarrow> 2048
           | Some b \<Rightarrow> if b = 0 then 2048 else b))"

definition create :: "'asn providers \<Rightarrow> create_opts option \<Rightarrow> error + PeerId" where
  "create F opts =
     (case generateKeyPair F (opts_bits opts) 0x10001 of
        Inl e \<Rightarrow> Inl e
      | Inr pair \<Rightarrow>
          (let asnPub = publicKeyToAsn1 F (pair_publicKey pair);
               asnPriv = privateKeyToAsn1 F (pair_privateKey pair)
           in case formatKey F asnPub ''Public'' of
                Inl e \<Rightarrow> Inl e
              | Inr protoPublic64 \<Rightarrow>
                  (case formatKey F asnPriv ''Private'' of
                     Inl e \<Rightarrow> Inl e
                   | Inr protoPrivate64 \<Rightarrow>
                       (let bufProtoPub64 = base64_decode protoPublic64;
                            bufProtoPriv64 = base64_decode protoPrivate64;
                            mhId = multihashing F (base64_decode protoPublic64) ''sha2-256''
                        in Inr (PeerId_new mhId (Buf bufProtoPriv64) (Buf bufProtoPub64))))))"

definition createFromHexString :: "hex_mode \<Rightarrow> string \<Rightarrow> error + PeerId" where
  "createFromHexString m str =
     (case Buffer_from_hex m str of
        Inl e \<Rightarrow> Inl e
      | Inr buf \<Rightarrow> Inr (PeerId_new buf Undefined Undefined))"

definition createFromBytes :: "bytes \<Rightarrow> PeerId" where
  "createFromBytes buf = PeerId_new buf Undefined Undefined"

definition createFromB58String :: "string \<Rightarrow> error + PeerId" where
  "createFromB58String str =
     (case base58_decode str of
        Inl e \<Rightarrow> Inl e
      | Inr buf \<Rightarrow> Inr (PeerId_new buf Undefined Undefined))"

definition createFromPubKey :: "'asn providers \<Rightarrow> jsval \<Rightarrow> error + PeerId" where
  "createFromPubKey F pubKey_in =
     (case Buffer_new_base64 pubKey_in of
        Inl e \<Rightarrow> Inl e
      | Inr buf \<Rightarrow>
          (let mhId = multihashing F buf ''sha2-256''
           in Inr (PeerId_new mhId Null pubKey_in)))"

definition createFromPrivKey :: "'asn providers \<Rightarrow> jsval \<Rightarrow> error + PeerId" where
  "createFromPrivKey F privKey_in =
     (case Buffer_new_base64 privKey_in of
        Inl e \<Rightarrow> Inl e
      | Inr buf \<Rightarrow>
     (case keyUnmarshal (protobuf F) buf of
        Inl e \<Rightarrow> Inl e
      | Inr mpk \<Rightarrow>
     (case asn1_fromDer F (toString_binary (Data mpk)) of
        Inl e \<Rightarrow> Inl e
      | Inr asnPriv \<Rightarrow>
     (case privateKeyFromAsn1 F asnPriv of
        Inl e \<Rightarrow> Inl e
      | Inr privateKey_rsa \<Rightarrow>
          (let publicKey_rsa = setPublicKey (priv_n privateKey_rsa) (priv_e privateKey_rsa);
               asnPub = publicKeyToAsn1 F publicKey_rsa
           in case formatKey F asnPub ''Public'' of
                Inl e \<Rightarrow> Inl e
              | Inr protoPublic64 \<Rightarrow>
                  (let bufProtoPub64 = base64_decode protoPublic64;
                       mhId = multihashing F (base64_decode protoPublic64) ''sha2-256''
                   in Inr (PeerId_new mhId privKey_in (Buf bufProtoPub64))))))))"

definition createFromJSON :: "hex_mode \<Rightarrow> peer_json \<Rightarrow> error + PeerId" where
  "createFromJSON m obj =
     (case Buffer_from_hex m (json_id obj) of
        Inl e \<Rightarrow> Inl e
      | Inr i \<Rightarrow>
          (case Buffer_from_hex m (json_privKey obj) of
             Inl e \<Rightarrow> Inl e
           | Inr priv \<Rightarrow>
               (case Buffer_from_hex m (json_pubKey obj) of
                  Inl e \<Rightarrow> Inl e
                | Inr pub \<Rightarrow> Inr (PeerId_new i (Buf priv) (Buf pub)))))"

section \<open>Auxiliary definitions for the statements\<close>

text \<open>
  The encoded public record that \<^verbatim>\<open>createFromPrivKey\<close> derives from a parsed
  private key: \<^verbatim>\<open>setPublicKey\<close>, \<^verbatim>\<open>publicKeyToAsn1\<close>, DER, and
  \<^verbatim>\<open>keyMarshal(..., 'Public')\<close>.
\<close>

definition derived_public_record :: "'asn providers \<Rightarrow> rsa_private \<Rightarrow> bytes" where
  "derived_public_record F k =
     PublicKey_encode \<lparr>Type = RSA, Data = Buffer_from_binary
       (asn1_toDer F (publicKeyToAsn1 F (setPublicKey (priv_n k) (priv_e k))))\<rparr>"

text \<open>
  A small concrete record of providers, used to run the factories on concrete
  input: the key is the textbook RSA key with modulus 35, its DER stand-in is the
  string of its numbers, the hash stand-in is the input behind a two-byte header,
  and the protobuf release checks enum values and throws on a cut varint.
\<close>

definition example_pair :: rsa_keypair where
  "example_pair =
     \<lparr>pair_publicKey = \<lparr>pub_n = 35, pub_e = 5\<rparr>,
      pair_privateKey = \<lparr>priv_n = 35, priv_e = 5, priv_d = 5, priv_p = 5, priv_q = 7,
        priv_dP = 1, priv_dQ = 5, priv_qInv = 3\<rparr>\<rparr>"

definition example_providers :: "string providers" where
  "example_providers =
     \<lparr>generateKeyPair = (\<lambda>b e. Inr example_pair),
      publicKeyToAsn1 = (\<lambda>k. [char_of (pub_n k), char_of (pub_e k)]),
      privateKeyToAsn1 = (\<lambda>k. [char_of (priv_n k), char_of (priv_e k), char_of (priv_d k)]),
      privateKeyFromAsn1 = (\<lambda>s. case s of
          [a, b, c] \<Rightarrow> Inr \<lparr>priv_n = of_char a, priv_e = of_char b, priv_d = of_char c,
             priv_p = 0, priv_q = 0, priv_dP = 0, priv_dQ = 0, priv_qInv = 0\<rparr>
        | _ \<Rightarrow> Inl DecodeError),
      asn1_toDer = (\<lambda>s. s),
      asn1_fromDer = (\<lambda>s. if s = [] then Inl DecodeError else Inr s),
      multihashing = (\<lambda>buf alg. [0x12, of_nat (length buf)] @ buf),
      protobuf = \<lparr>pb_enum_checked = True,
        pb_cut_varint = (\<lambda>ty da bs. Inl FormatError)\<rparr>\<rparr>"






section \<open>Lemmas on the hex codec\<close>

lemma hex2bin_hex_digit: "d < 16 \<Longrightarrow> hex2bin (hex_digit d) = Some d"
proof -
  assume "d < 16"
  then have "d \<in> {0..<16}" by simp
  moreover have "\<forall>k\<in>{0..<16}. hex2bin (hex_digit k) = Some k"
    by code_simp
  ultimately show ?thesis by blast
qed

lemma hex_byte: "(of_nat (unat b div 16 * 16 + unat b mod 16) :: byte) = b"
  by simp

lemma hex_decode_encode: "hex_decode (hex_encode bs) = bs"
proof (induction bs)
  case Nil
  show ?case by simp
next
  case (Cons b bs)
  have "unat b < 256" using unsigned_less [of b, where ?'a = nat] by simp
  then have "unat b div 16 < 16" and "unat b mod 16 < 16" by simp_all
  then show ?case
    using Cons by (simp add: hex2bin_hex_digit hex_byte)
qed

lemma length_hex_encode: "length (hex_encode bs) = 2 * length bs"
  by (induction bs) simp_all

lemma Buffer_from_hex_encode: "Buffer_from_hex m (hex_encode bs) = Inr bs"
  by (simp add: Buffer_from_hex_def hex_decode_encode length_hex_encode)

section \<open>Lemmas on the base64 and binary codecs\<close>

lemma index_of_nth:
  "distinct xs \<Longrightarrow> i < length xs \<Longrightarrow> index_of xs (xs ! i) = Some i"
  by (simp add: index_of_def map_of_zip_nth)

lemma distinct_b64_alphabet: "distinct b64_alphabet"
  by (simp add: b64_alphabet_def)

lemma length_b64_alphabet: "length b64_alphabet = 64"
  by (simp add: b64_alphabet_def)

lemma b64_char_plain:
  "d < 64 \<Longrightarrow> b64_char d \<noteq> CHR ''='' \<and> b64_char d \<noteq> CHR ''-'' \<and> b64_char d \<noteq> CHR ''_''"
proof -
  assume "d < 64"
  then have "d \<in> {0..<64}" by simp
  moreover have "\<forall>k\<in>{0..<64}.
      b64_char k \<noteq> CHR ''='' \<and> b64_char k \<noteq> CHR ''-'' \<and> b64_char k \<noteq> CHR ''_''"
    by code_simp
  ultimately show ?thesis by blast
qed

lemma unbase64_b64_char: "d < 64 \<Longrightarrow> unbase64 (b64_char d) = Some d"
  using b64_char_plain [of d]
  by (simp add: unbase64_def b64_char_def index_of_nth distinct_b64_alphabet
      length_b64_alphabet)

lemma unat_byte_less: "unat (b :: byte) < 256"
  using unsigned_less [of b, where ?'a = nat] by simp

lemma sextets_of_cons: "d < 64 \<Longrightarrow> b64_sextets (b64_char d # s) = d # b64_sextets s"
  using b64_char_plain [of d] by (simp add: b64_sextets_def unbase64_b64_char)

lemma sextets_of_pad: "b64_sextets (CHR ''='' # s) = []"
  by (simp add: b64_sextets_def)

lemma sextets_of_Nil: "b64_sextets [] = []"
  by (simp add: b64_sextets_def)

lemma byte_of_unat: "(of_nat (unat b) :: byte) = b"
  by simp

lemma b64_first_nat:
  assumes "y < 256"
  shows "x div 4 * 4 + (x mod 4 * 16 + y div 16) div 16 = (x :: nat)"
proof -
  have "(x mod 4 * 16 + y div 16) div 16 = x mod 4" using assms by simp
  then show ?thesis by simp
qed

lemma b64_second_nat:
  assumes "y < 256" and "z < 256"
  shows "(x mod 4 * 16 + y div 16) mod 16 * 16 + (y mod 16 * 4 + z div 64) div 4 = (y :: nat)"
proof -
  have a: "(x mod 4 * 16 + y div 16) mod 16 = y div 16" using assms by simp
  have b: "(y mod 16 * 4 + z div 64) div 4 = y mod 16" using assms by simp
  show ?thesis unfolding a b by simp
qed

lemma b64_third_nat:
  assumes "z < 256"
  shows "(y mod 16 * 4 + z div 64) mod 4 * 64 + z mod 64 = (z :: nat)"
proof -
  have "(y mod 16 * 4 + z div 64) mod 4 = z div 64" using assms by simp
  then show ?thesis by simp
qed

lemma b64_sextet_bounds:
  "unat (x :: byte) div 4 < 64"
  "unat (x :: byte) mod 4 * 16 + unat (y :: byte) div 16 < 64"
  "unat y mod 16 * 4 + unat (z :: byte) div 64 < 64"
  "unat z mod 64 < 64"
  "unat x mod 4 * 16 < 64"
  "unat y mod 16 * 4 < 64"
proof -
  show "unat x div 4 < 64" using unat_byte_less [of x] by simp
  show "unat x mod 4 * 16 + unat y div 16 < 64" using unat_byte_less [of y] by simp
  show "unat y mod 16 * 4 + unat z div 64 < 64" using unat_byte_less [of z] by simp
  show "unat z mod 64 < 64" by simp
  show "unat x mod 4 * 16 < 64" by simp
  show "unat y mod 16 * 4 < 64" by simp
qed

lemma b64_groups_four:
  "b64_groups (unat x div 4 # (unat x mod 4 * 16 + unat y div 16)
       # (unat y mod 16 * 4 + unat z div 64) # unat z mod 64 # r) =
   x # y # z # b64_groups r"
  by (simp only: b64_groups.simps b64_first_nat b64_second_nat b64_third_nat
      unat_byte_less byte_of_unat)

lemma b64_groups_three:
  "b64_groups [unat x div 4, unat x mod 4 * 16 + unat y div 16, unat y mod 16 * 4] = [x, y]"
proof -
  have "(unat x mod 4 * 16 + unat y div 16) mod 16 * 16 + (unat y mod 16 * 4) div 4 = unat y"
    using unat_byte_less [of y] by simp
  then show ?thesis
    by (simp only: b64_groups.simps b64_first_nat unat_byte_less byte_of_unat)
qed

lemma b64_groups_two: "b64_groups [unat x div 4, unat x mod 4 * 16] = [x]"
proof -
  have "unat x div 4 * 4 + (unat x mod 4 * 16) div 16 = unat x"
    by simp
  then show ?thesis
    by (simp only: b64_groups.simps byte_of_unat)
qed

lemma base64_decode_encode: "base64_decode (base64_encode bs) = bs"
proof (induction bs rule: base64_encode.induct)
  case (1 x y z bs)
  then have "b64_groups (b64_sextets (base64_encode bs)) = bs"
    by (simp only: base64_decode_def)
  then show ?case
    by (simp only: base64_decode_def base64_encode.simps sextets_of_cons
        b64_sextet_bounds b64_groups_four)
next
  case (2 x y)
  show ?case
    by (simp only: base64_decode_def base64_encode.simps sextets_of_cons sextets_of_pad
        b64_sextet_bounds b64_groups_three)
next
  case (3 x)
  show ?case
    by (simp only: base64_decode_def base64_encode.simps sextets_of_cons sextets_of_pad
        b64_sextet_bounds b64_groups_two)
next
  case 4
  show ?case
    by (simp only: base64_decode_def base64_encode.simps sextets_of_Nil b64_groups.simps)
qed

lemma Buffer_from_binary_toString: "Buffer_from_binary (toString_binary b) = b"
proof -
  have "(of_nat (of_char (char_of (unat x) :: char)) :: byte) = x" for x :: byte
    using unat_byte_less [of x] by simp
  then show ?thesis
    by (simp add: Buffer_from_binary_def toString_binary_def comp_def)
qed

lemma toString_binary_from: "toString_binary (Buffer_from_binary s) = s"
proof -
  have "char_of (unat (of_nat (of_char c) :: byte)) = c" for c :: char
    by (simp add: unat_of_nat)
  then show ?thesis
    by (simp add: Buffer_from_binary_def toString_binary_def comp_def)
qed

section \<open>Lemmas on the base58 codec\<close>

lemma distinct_b58_alphabet: "distinct b58_alphabet"
  by (simp add: b58_alphabet_def)

lemma length_b58_alphabet: "length b58_alphabet = 58"
  by (simp add: b58_alphabet_def)

lemma index_of_b58_char: "d < 58 \<Longrightarrow> index_of b58_alphabet (b58_char d) = Some d"
  by (simp add: b58_char_def index_of_nth distinct_b58_alphabet length_b58_alphabet)

lemma b58_values_map: "list_all (\<lambda>d. d < 58) ds \<Longrightarrow> b58_values (map b58_char ds) = Some ds"
  by (induction ds) (simp_all add: index_of_b58_char)

lemma from_digits_snoc: "from_digits b (ds @ [d]) = from_digits b ds * b + d"
  by (simp add: from_digits_def)

lemma from_digits_Nil: "from_digits b [] = 0"
  by (simp add: from_digits_def)

lemma to_digits_0: "to_digits b 0 = []"
  by (simp add: to_digits.simps)

lemma to_digits_step:
  "1 < b \<Longrightarrow> 0 < n \<Longrightarrow> to_digits b n = to_digits b (n div b) @ [n mod b]"
  by (subst to_digits.simps) simp

lemma from_to_digits: "1 < b \<Longrightarrow> from_digits b (to_digits b n) = n"
proof (induction b n rule: to_digits.induct)
  case (1 b n)
  show ?case
  proof (cases "n = 0")
    case True
    then show ?thesis by (simp add: to_digits_0 from_digits_Nil)
  next
    case False
    with 1 show ?thesis
      by (simp add: to_digits_step from_digits_snoc)
  qed
qed

lemma to_digits_bounded: "1 < b \<Longrightarrow> list_all (\<lambda>d. d < b) (to_digits b n)"
proof (induction b n rule: to_digits.induct)
  case (1 b n)
  show ?case
  proof (cases "n = 0")
    case True
    then show ?thesis by (simp add: to_digits_0)
  next
    case False
    with 1 show ?thesis
      by (simp add: to_digits_step)
  qed
qed

lemma to_digits_no_leading_zero: "1 < b \<Longrightarrow> takeWhile (\<lambda>d. d = 0) (to_digits b n) = []"
proof (induction b n rule: to_digits.induct)
  case (1 b n)
  show ?case
  proof (cases "n = 0")
    case True
    then show ?thesis by (simp add: to_digits_0)
  next
    case False
    note n = this
    show ?thesis
    proof (cases "n div b = 0")
      case True
      with n 1(2) have "n mod b \<noteq> 0" by (metis div_mult_mod_eq add_0 mult_0_right mult_zero_left)
      with True n 1(2) show ?thesis
        by (simp add: to_digits_step [of b n] to_digits_0)
    next
      case False
      with 1(2) have "to_digits b (n div b) \<noteq> []"
        by (simp add: to_digits_step [of b "n div b"])
      moreover from 1 n have "takeWhile (\<lambda>d. d = 0) (to_digits b (n div b)) = []" by simp
      ultimately show ?thesis
        using n 1(2)
        by (cases "to_digits b (n div b)") (auto simp add: to_digits_step [of b n] split: if_splits)
    qed
  qed
qed

lemma from_digits_zeros: "from_digits b (replicate z 0 @ ds) = from_digits b ds"
proof (induction ds rule: rev_induct)
  case Nil
  show ?case by (induction z) (simp_all add: from_digits_def)
next
  case (snoc d ds)
  then show ?case
    by (simp add: from_digits_snoc append_assoc [symmetric] del: append_assoc)
qed

lemma from_digits_eq_0:
  "0 < b \<Longrightarrow> from_digits b ds = 0 \<longleftrightarrow> dropWhile (\<lambda>d. d = 0) ds = []"
proof (induction ds rule: rev_induct)
  case Nil
  show ?case by (simp add: from_digits_Nil)
next
  case (snoc d ds)
  then show ?case
    by (auto simp add: from_digits_snoc dropWhile_append split: if_splits)
qed

lemma to_from_digits:
  "1 < b \<Longrightarrow> list_all (\<lambda>d. d < b) ds \<Longrightarrow>
   to_digits b (from_digits b ds) = dropWhile (\<lambda>d. d = 0) ds"
proof (induction ds rule: rev_induct)
  case Nil
  show ?case by (simp add: from_digits_Nil to_digits_0)
next
  case (snoc d ds)
  then have d: "d < b" and ih: "to_digits b (from_digits b ds) = dropWhile (\<lambda>d. d = 0) ds"
    by simp_all
  let ?m = "from_digits b ds"
  show ?case
  proof (cases "?m * b + d = 0")
    case True
    then have z: "from_digits b (ds @ [d]) = 0" by (simp only: from_digits_snoc)
    then have "dropWhile (\<lambda>d. d = 0) (ds @ [d]) = []"
      using from_digits_eq_0 [of b "ds @ [d]"] snoc.prems(1) by simp
    then show ?thesis unfolding z by (simp only: to_digits_0)
  next
    case False
    then have pos: "0 < ?m * b + d" by simp
    have dm: "(?m * b + d) div b = ?m" "(?m * b + d) mod b = d"
      using d by simp_all
    have "to_digits b (?m * b + d) = dropWhile (\<lambda>d. d = 0) ds @ [d]"
      using to_digits_step [OF snoc.prems(1) pos] by (simp only: dm ih)
    moreover have "dropWhile (\<lambda>d. d = 0) (ds @ [d]) = dropWhile (\<lambda>d. d = 0) ds @ [d]"
    proof (cases "dropWhile (\<lambda>d. d = 0) ds = []")
      case True
      then have "?m = 0" using from_digits_eq_0 [of b ds] snoc.prems(1) by simp
      with False have "d \<noteq> 0" by simp
      with True show ?thesis by (simp add: dropWhile_append)
    next
      case False
      then show ?thesis by (auto simp add: dropWhile_append)
    qed
    ultimately show ?thesis by (simp add: from_digits_snoc)
  qed
qed

lemma takeWhile_replicate_zeros:
  "takeWhile (\<lambda>d. d = 0) ds = [] \<Longrightarrow>
   takeWhile (\<lambda>d. d = (0::nat)) (replicate z 0 @ ds) = replicate z 0"
  by (induction z) simp_all

lemma b58_char_0: "b58_char 0 = CHR ''1''"
  by (simp add: b58_char_def b58_alphabet_def)

lemma leading_zero_bytes:
  "replicate (length (takeWhile (\<lambda>x. x = 0) buf)) 0 @ dropWhile (\<lambda>x. x = 0) buf = (buf :: bytes)"
proof -
  have "takeWhile (\<lambda>x. x = 0) buf = replicate (length (takeWhile (\<lambda>x. x = 0) buf)) 0"
    by (induction buf) simp_all
  then show ?thesis
    by (metis takeWhile_dropWhile_id)
qed

lemma dropWhile_map_unat:
  "dropWhile (\<lambda>d. d = 0) (map unat buf) = map unat (dropWhile (\<lambda>x. x = 0) (buf :: bytes))"
  by (induction buf) (simp_all add: unat_eq_0)

lemma base58_decode_encode: "base58_decode (base58_encode buf) = Inr buf"
proof -
  let ?z = "length (takeWhile (\<lambda>x. x = 0) buf)"
  let ?N = "from_digits 256 (map unat buf)"
  let ?ds = "replicate ?z 0 @ to_digits 58 ?N"
  have enc: "base58_encode buf = map b58_char ?ds"
    by (simp add: base58_encode_def b58_char_0)
  have "list_all (\<lambda>d. d < 58) (to_digits 58 ?N)"
    by (rule to_digits_bounded) simp
  then have "list_all (\<lambda>d. d < 58) ?ds"
    by (auto simp add: list_all_iff)
  then have vals: "b58_values (base58_encode buf) = Some ?ds"
    unfolding enc by (rule b58_values_map)
  have lead: "takeWhile (\<lambda>d. d = 0) ?ds = replicate ?z 0"
    by (rule takeWhile_replicate_zeros) (simp add: to_digits_no_leading_zero)
  have num: "from_digits 58 ?ds = ?N"
    by (simp only: from_digits_zeros) (simp add: from_to_digits)
  have "list_all (\<lambda>d. d < 256) (map unat buf)"
    by (simp add: list_all_iff unat_byte_less)
  then have "to_digits 256 ?N = map unat (dropWhile (\<lambda>x. x = 0) buf)"
    by (simp add: to_from_digits dropWhile_map_unat)
  then have bytes: "map of_nat (to_digits 256 ?N) = dropWhile (\<lambda>x. x = 0) buf"
    by (simp add: comp_def)
  show ?thesis
    unfolding base58_decode_def vals
    by (simp only: option.case lead num bytes length_replicate leading_zero_bytes)
qed

lemma b58_values_invalid:
  "c \<in> set s \<Longrightarrow> index_of b58_alphabet c = None \<Longrightarrow> b58_values s = None"
  by (induction s) (auto split: option.splits)

lemma index_of_None: "index_of xs c = None \<longleftrightarrow> c \<notin> set xs"
proof -
  have "map fst (zip xs [0..<length xs]) = xs"
    by (rule map_fst_zip) simp
  then have "fst ` set (zip xs [0..<length xs]) = set xs"
    by (metis set_map)
  then show ?thesis
    by (simp add: index_of_def map_of_eq_None_iff)
qed

lemma base58_decode_invalid:
  "c \<in> set s \<Longrightarrow> c \<notin> set b58_alphabet \<Longrightarrow> base58_decode s = Inl EncodingError"
proof -
  assume c: "c \<in> set s" and "c \<notin> set b58_alphabet"
  then have "index_of b58_alphabet c = None"
    by (simp add: index_of_None)
  with c show ?thesis
    by (simp add: base58_decode_def b58_values_invalid)
qed

section \<open>Lemmas on the key record codec\<close>

lemma unat_byte_of_nat: "m < 256 \<Longrightarrow> unat (of_nat m :: byte) = m"
  by (subst unat_of_nat) simp

lemma varint_encode_small: "n < 128 \<Longrightarrow> varint_encode n = [of_nat n]"
  by (simp add: varint_encode.simps [of n])

lemma varint_encode_large:
  "\<not> n < 128 \<Longrightarrow> varint_encode n = of_nat (n mod 128 + 128) # varint_encode (n div 128)"
  by (subst varint_encode.simps) (simp only: if_False)

lemma varint_encode_not_Nil: "varint_encode n \<noteq> []"
  by (cases "n < 128") (simp_all add: varint_encode_small varint_encode_large)

lemma varint_decode_last:
  "n < 128 \<Longrightarrow> varint_decode (of_nat n # bs) = Some (n, bs)"
proof -
  assume "n < 128"
  then have "unat (of_nat n :: byte) = n" by (simp add: unat_byte_of_nat)
  with \<open>n < 128\<close> show ?thesis
    unfolding varint_decode.simps by simp
qed

lemma varint_decode_more:
  "\<not> n < 128 \<Longrightarrow>
   varint_decode (of_nat (n mod 128 + 128) # bs) =
     (case varint_decode bs of
        None \<Rightarrow> None
      | Some (m, r) \<Rightarrow> Some (n mod 128 + 128 * m, r))"
proof -
  have "n mod 128 + 128 < 256"
    using mod_less_divisor [of 128 n] by linarith
  then have u: "unat (of_nat (n mod 128 + 128) :: byte) = n mod 128 + 128"
    by (rule unat_byte_of_nat)
  have "\<not> n mod 128 + 128 < 128" by simp
  then show ?thesis
    unfolding varint_decode.simps u by (simp split: option.split)
qed

lemma varint_decode_encode: "varint_decode (varint_encode n @ r) = Some (n, r)"
proof (induction n rule: varint_encode.induct)
  case (1 n)
  show ?case
  proof (cases "n < 128")
    case True
    then show ?thesis
      by (simp only: varint_encode_small varint_decode_last append_Cons append_Nil)
  next
    case False
    have e: "varint_encode n = of_nat (n mod 128 + 128) # varint_encode (n div 128)"
      by (rule varint_encode_large [OF False])
    have "varint_decode (varint_encode n @ r) =
        varint_decode (of_nat (n mod 128 + 128) # (varint_encode (n div 128) @ r))"
      unfolding e by (simp only: append_Cons)
    also have "\<dots> =
        (case varint_decode (varint_encode (n div 128) @ r) of
           None \<Rightarrow> None
         | Some (m, r) \<Rightarrow> Some (n mod 128 + 128 * m, r))"
      by (rule varint_decode_more [OF False])
    also have "\<dots> = Some (n, r)"
      using 1 False by simp
    finally show ?thesis .
  qed
qed

lemma varint_decode_truncated:
  "k < length (varint_encode n) \<Longrightarrow> varint_decode (take k (varint_encode n)) = None"
proof (induction n arbitrary: k rule: varint_encode.induct)
  case (1 n)
  show ?case
  proof (cases "n < 128")
    case True
    with 1(2) show ?thesis by (simp add: varint_encode_small)
  next
    case False
    show ?thesis
    proof (cases k)
      case 0
      then show ?thesis by simp
    next
      case (Suc j)
      with 1(2) False have "j < length (varint_encode (n div 128))"
        by (simp add: varint_encode_large)
      with 1(1) False have ih: "varint_decode (take j (varint_encode (n div 128))) = None"
        by simp
      have e: "varint_encode n = of_nat (n mod 128 + 128) # varint_encode (n div 128)"
        by (rule varint_encode_large [OF False])
      have "varint_decode (take k (varint_encode n)) =
          varint_decode (of_nat (n mod 128 + 128) # take j (varint_encode (n div 128)))"
        unfolding e Suc by (simp only: take_Suc_Cons)
      also have "\<dots> =
          (case varint_decode (take j (varint_encode (n div 128))) of
             None \<Rightarrow> None
           | Some (m, r) \<Rightarrow> Some (n mod 128 + 128 * m, r))"
        by (rule varint_decode_more [OF False])
      also have "\<dots> = None"
        using ih by simp
      finally show ?thesis .
    qed
  qed
qed

lemma pb_tag_8: "pb_tag 8 = 1"
  by (simp add: pb_tag_def)

lemma pb_tag_18: "pb_tag 18 = 2"
  by (simp add: pb_tag_def)

lemma decode_fields_Nil:
  "decode_fields L ty da [] =
     (case (ty, da) of (Some t, Some d) \<Rightarrow> Inr \<lparr>Type = t, Data = d\<rparr> | _ \<Rightarrow> Inl FormatError)"
  by (simp add: decode_fields.simps [of L ty da "[]"])

lemma decode_fields_Type:
  "decode_fields L ty da (varint_encode 8 @ varint_encode t @ r) =
     (if pb_enum_checked L \<and> t \<noteq> RSA then Inl FormatError
      else decode_fields L (Some t) da r)"
  by (subst decode_fields.simps)
    (simp add: varint_encode_not_Nil varint_decode_encode pb_tag_8)

lemma decode_fields_Data:
  "decode_fields L ty da (varint_encode 18 @ varint_encode len @ r) =
     decode_fields L ty (Some (take len r)) (drop len r)"
  by (subst decode_fields.simps)
    (simp add: varint_encode_not_Nil varint_decode_encode pb_tag_18)

lemma PrivateKey_decode_encode:
  "PrivateKey_decode L (pb_encode \<lparr>Type = RSA, Data = d\<rparr>) = Inr \<lparr>Type = RSA, Data = d\<rparr>"
  by (simp add: PrivateKey_decode_def pb_encode_def decode_fields_Type decode_fields_Data
      decode_fields_Nil)


lemma PrivateKey_decode_unknown_Type:
  "pb_enum_checked L \<Longrightarrow> t \<noteq> RSA \<Longrightarrow>
   PrivateKey_decode L (pb_encode \<lparr>Type = t, Data = d\<rparr>) = Inl FormatError"
  by (simp add: PrivateKey_decode_def pb_encode_def decode_fields_Type)






section \<open>Test vectors of the codecs\<close>

text \<open>
  The codecs above on the test vectors of RFC 4648 (base64), of the
  \<^verbatim>\<open>bs58\<close> documentation (base58) and of the protocol buffers encoding guide
  (varint).
\<close>

lemma base64_encode_vectors:
  "base64_encode (Buffer_from_binary ''foobar'') = ''Zm9vYmFy''"
  "base64_encode (Buffer_from_binary ''fo'') = ''Zm8=''"
  "base64_encode (Buffer_from_binary ''f'') = ''Zg==''"
  "base64_decode ''Zm9v YmE='' = Buffer_from_binary ''fooba''"
  by code_simp+

lemma base58_encode_vector:
  "base58_encode (Buffer_from_binary ''Hello World!'') = ''2NEpo7TZRRrLZSi2U''"
  by (simp add: Buffer_from_binary_def base58_encode_def to_digits.simps from_digits_def
      b58_char_def b58_alphabet_def)

lemma base58_decode_vector:
  "base58_decode ''2NEpo7TZRRrLZSi2U'' = Inr (Buffer_from_binary ''Hello World!'')"
  by (simp add: Buffer_from_binary_def base58_decode_def index_of_def b58_alphabet_def
      to_digits.simps from_digits_def upt_rec)

lemma hex_vectors:
  "hex_encode [0xde, 0xad, 0xbe, 0xef] = ''deadbeef''"
  "hex_decode ''DEADbeef'' = [0xde, 0xad, 0xbe, 0xef]"
  by code_simp+

lemma varint_vectors:
  "varint_encode 300 = [0xac, 0x02]"
  "varint_decode [0xac, 0x02, 7] = Some (300, [7])"
  by (simp_all add: varint_encode.simps)

section \<open>Properties of the factories\<close>

lemma formatKey_Public:
  "formatKey F key ''Public'' =
     Inr (base64_encode (PublicKey_encode
       \<lparr>Type = RSA, Data = Buffer_from_binary (asn1_toDer F key)\<rparr>))"
  by (simp add: formatKey_def keyMarshal_def)

lemma formatKey_Private:
  "formatKey F key ''Private'' =
     Inr (base64_encode (PrivateKey_encode
       \<lparr>Type = RSA, Data = Buffer_from_binary (asn1_toDer F key)\<rparr>))"
  by (simp add: formatKey_def keyMarshal_def)

lemma example_createFromPrivKey:
  "createFromPrivKey example_providers (Str ''CAASAyMFBQ=='') =
     Inr \<lparr>id_bytes = [18, 6, 8, 0, 18, 2, 35, 5], privKey = Str ''CAASAyMFBQ=='',
          pubKey = Buf [8, 0, 18, 2, 35, 5]\<rparr>"
  by code_simp

lemma example_generate: "generateKeyPair example_providers b e = Inr example_pair"
  by (simp add: example_providers_def)

lemma example_public_record:
  "PublicKey_encode \<lparr>Type = RSA, Data = Buffer_from_binary (asn1_toDer example_providers
     (publicKeyToAsn1 example_providers (pair_publicKey example_pair)))\<rparr> = [8, 0, 18, 2, 35, 5]"
  by code_simp

lemma example_private_record:
  "PrivateKey_encode \<lparr>Type = RSA, Data = Buffer_from_binary (asn1_toDer example_providers
     (privateKeyToAsn1 example_providers (pair_privateKey example_pair)))\<rparr> =
   [8, 0, 18, 3, 35, 5, 5]"
  by code_simp

lemma example_multihashing:
  "multihashing example_providers [8, 0, 18, 2, 35, 5] alg = [18, 6, 8, 0, 18, 2, 35, 5]"
  by (simp add: example_providers_def)

lemma example_create:
  "create example_providers None =
     Inr \<lparr>id_bytes = [18, 6, 8, 0, 18, 2, 35, 5], privKey = Buf [8, 0, 18, 3, 35, 5, 5],
          pubKey = Buf [8, 0, 18, 2, 35, 5]\<rparr>"
  by (simp add: create_def example_generate formatKey_Public formatKey_Private
      base64_decode_encode example_public_record example_private_record
      example_multihashing PeerId_new_def)

lemma pb_encode_longer: "length (Data r) < length (pb_encode r)"
proof -
  have "0 < length (varint_encode 8)"
    using varint_encode_not_Nil [of 8] by simp
  then show ?thesis
    by (simp add: pb_encode_def)
qed

text \<open>
  C1: every identity that \<^verbatim>\<open>create\<close> returns has as id the multihash (sha2-256)
  of the encoded public key record, the bytes that \<^verbatim>\<open>keyMarshal\<close> makes of the
  DER of the public key; these bytes are also the identity's public key, and they
  are not the DER itself.
\<close>

theorem create_id_is_hash_of_public_record:
  assumes "create F opts = Inr I"
  shows "\<exists>pair der.
           generateKeyPair F (opts_bits opts) 0x10001 = Inr pair \<and>
           der = Buffer_from_binary (asn1_toDer F (publicKeyToAsn1 F (pair_publicKey pair))) \<and>
           keyMarshal der ''Public'' = Some (PublicKey_encode \<lparr>Type = RSA, Data = der\<rparr>) \<and>
           id_bytes I = multihashing F (PublicKey_encode \<lparr>Type = RSA, Data = der\<rparr>) ''sha2-256'' \<and>
           pubKey I = Buf (PublicKey_encode \<lparr>Type = RSA, Data = der\<rparr>) \<and>
           PublicKey_encode \<lparr>Type = RSA, Data = der\<rparr> \<noteq> der"
proof (cases "generateKeyPair F (opts_bits opts) 0x10001")
  case (Inl e)
  with assms show ?thesis by (simp add: create_def)
next
  case (Inr pair)
  let ?der = "Buffer_from_binary (asn1_toDer F (publicKeyToAsn1 F (pair_publicKey pair)))"
  let ?rec = "PublicKey_encode \<lparr>Type = RSA, Data = ?der\<rparr>"
  from assms Inr have "I = PeerId_new (multihashing F ?rec ''sha2-256'')
      (Buf (PrivateKey_encode \<lparr>Type = RSA, Data =
         Buffer_from_binary (asn1_toDer F (privateKeyToAsn1 F (pair_privateKey pair)))\<rparr>))
      (Buf ?rec)"
    by (simp add: create_def Let_def formatKey_Public formatKey_Private base64_decode_encode)
  moreover have "?rec \<noteq> ?der"
    using pb_encode_longer [of "\<lparr>Type = RSA, Data = ?der\<rparr>"]
    by (auto simp add: PublicKey_encode_def)
  ultimately show ?thesis
    using Inr by (simp add: PeerId_new_def keyMarshal_def)
qed

theorem create_id_is_hash_of_public_record_witness:
  "create example_providers None =
     Inr \<lparr>id_bytes = [18, 6, 8, 0, 18, 2, 35, 5], privKey = Buf [8, 0, 18, 3, 35, 5, 5],
          pubKey = Buf [8, 0, 18, 2, 35, 5]\<rparr> \<and>
   (\<exists>pair der.
      generateKeyPair example_providers (opts_bits None) 0x10001 = Inr pair \<and>
      der = Buffer_from_binary (asn1_toDer example_providers
              (publicKeyToAsn1 example_providers (pair_publicKey pair))) \<and>
      keyMarshal der ''Public'' = Some (PublicKey_encode \<lparr>Type = RSA, Data = der\<rparr>) \<and>
      id_bytes \<lparr>id_bytes = [18, 6, 8, 0, 18, 2, 35, 5], privKey = Buf [8, 0, 18, 3, 35, 5, 5],
          pubKey = Buf [8, 0, 18, 2, 35, 5]\<rparr> =
        multihashing example_providers (PublicKey_encode \<lparr>Type = RSA, Data = der\<rparr>) ''sha2-256'' \<and>
      pubKey \<lparr>id_bytes = [18, 6, 8, 0, 18, 2, 35, 5], privKey = Buf [8, 0, 18, 3, 35, 5, 5],
          pubKey = Buf [8, 0, 18, 2, 35, 5]\<rparr> =
        Buf (PublicKey_encode \<lparr>Type = RSA, Data = der\<rparr>) \<and>
      PublicKey_encode \<lparr>Type = RSA, Data = der\<rparr> \<noteq> der)"
  using example_create create_id_is_hash_of_public_record [OF example_create]
  by (rule conjI)

text \<open>
  C4: \<^verbatim>\<open>createFromPubKey\<close> never fails on a Buffer or a string: the id is the
  multihash of the given bytes (of the bytes its base64 text denotes, for a string),
  no record is decoded or checked, the input is stored as the public key and the
  private key is \<^verbatim>\<open>null\<close>.
\<close>

theorem createFromPubKey_hashes_input:
  "createFromPubKey F (Buf b) =
     Inr \<lparr>id_bytes = multihashing F b ''sha2-256'', privKey = Null, pubKey = Buf b\<rparr> \<and>
   createFromPubKey F (Str s) =
     Inr \<lparr>id_bytes = multihashing F (base64_decode s) ''sha2-256'', privKey = Null,
          pubKey = Str s\<rparr> \<and>
   (createFromPubKey F v = Inr I \<longrightarrow>
      (\<exists>buf. Buffer_new_base64 v = Inr buf \<and>
             id_bytes I = multihashing F buf ''sha2-256'') \<and>
      pubKey I = v \<and> privKey I = Null)"
  by (cases v) (auto simp add: createFromPubKey_def PeerId_new_def)

theorem createFromPubKey_hashes_input_witness:
  "createFromPubKey example_providers (Buf [18, 0]) =
     Inr \<lparr>id_bytes = [18, 2, 18, 0], privKey = Null, pubKey = Buf [18, 0]\<rparr> \<and>
   keyUnmarshal (protobuf example_providers) [18, 0] = Inl FormatError"
proof -
  have "multihashing example_providers [18, 0] ''sha2-256'' = [18, 2, 18, 0]"
    by (simp add: example_providers_def)
  moreover have "keyUnmarshal (protobuf example_providers) [18, 0] = Inl FormatError"
    by code_simp
  ultimately show ?thesis
    using createFromPubKey_hashes_input [of example_providers "[18, 0]" "[]" "Buf [18, 0]"]
    by simp
qed

lemma createFromPrivKey_Inr:
  assumes "createFromPrivKey F v = Inr I"
  shows "\<exists>buf mpk asnPriv k.
    Buffer_new_base64 v = Inr buf \<and>
    keyUnmarshal (protobuf F) buf = Inr mpk \<and>
    asn1_fromDer F (toString_binary (Data mpk)) = Inr asnPriv \<and>
    privateKeyFromAsn1 F asnPriv = Inr k \<and>
    I = PeerId_new
       (multihashing F (derived_public_record F k) ''sha2-256'') v
          (Buf (derived_public_record F k))"
proof (cases "Buffer_new_base64 v")
  case (Inl e)
  with assms show ?thesis by (simp add: createFromPrivKey_def)
next
  case buf: (Inr buf)
  show ?thesis
  proof (cases "keyUnmarshal (protobuf F) buf")
    case (Inl e)
    with assms buf show ?thesis by (simp add: createFromPrivKey_def)
  next
    case mpk: (Inr mpk)
    show ?thesis
    proof (cases "asn1_fromDer F (toString_binary (Data mpk))")
      case (Inl e)
      with assms buf mpk show ?thesis by (simp add: createFromPrivKey_def)
    next
      case asn: (Inr asnPriv)
      show ?thesis
      proof (cases "privateKeyFromAsn1 F asnPriv")
        case (Inl e)
        with assms buf mpk asn show ?thesis by (simp add: createFromPrivKey_def)
      next
        case k: (Inr k)
        from assms buf mpk asn k show ?thesis
          by (simp add: createFromPrivKey_def Let_def formatKey_Public base64_decode_encode
              derived_public_record_def)
      qed
    qed
  qed
qed

text \<open>
  C2: when \<^verbatim>\<open>createFromPrivKey\<close> returns an identity for a private-key record,
  the record decodes to a private key \<open>k\<close>, the id is the multihash of the public
  record derived from \<open>k\<close> (the encoded record of the DER of the public key set from
  the modulus and the exponent of \<open>k\<close>), and \<^verbatim>\<open>createFromPubKey\<close> on that derived
  record (as a Buffer, or as its base64 text) returns an identity with the same id.
\<close>

theorem createFromPrivKey_id_matches_createFromPubKey:
  assumes "createFromPrivKey F v = Inr I"
  shows "\<exists>buf mpk asnPriv k.
           Buffer_new_base64 v = Inr buf \<and>
           keyUnmarshal (protobuf F) buf = Inr mpk \<and>
           asn1_fromDer F (toString_binary (Data mpk)) = Inr asnPriv \<and>
           privateKeyFromAsn1 F asnPriv = Inr k \<and>
           keyMarshal (Buffer_from_binary (asn1_toDer F
               (publicKeyToAsn1 F (setPublicKey (priv_n k) (priv_e k))))) ''Public'' =
             Some (derived_public_record F k) \<and>
           id_bytes I = multihashing F (derived_public_record F k) ''sha2-256'' \<and>
           pubKey I = Buf (derived_public_record F k) \<and>
           createFromPubKey F (Buf (derived_public_record F k)) =
             Inr (PeerId_new (id_bytes I) Null (Buf (derived_public_record F k))) \<and>
           createFromPubKey F (Str (base64_encode (derived_public_record F k))) =
             Inr (PeerId_new (id_bytes I) Null
               (Str (base64_encode (derived_public_record F k))))"
proof -
  from createFromPrivKey_Inr [OF assms] obtain buf mpk asnPriv k where
    h: "Buffer_new_base64 v = Inr buf" "keyUnmarshal (protobuf F) buf = Inr mpk"
      "asn1_fromDer F (toString_binary (Data mpk)) = Inr asnPriv"
      "privateKeyFromAsn1 F asnPriv = Inr k"
      "I = PeerId_new (multihashing F (derived_public_record F k) ''sha2-256'') v
          (Buf (derived_public_record F k))"
    by auto
  have m: "keyMarshal (Buffer_from_binary (asn1_toDer F
               (publicKeyToAsn1 F (setPublicKey (priv_n k) (priv_e k))))) ''Public'' =
             Some (derived_public_record F k)"
    by (simp add: keyMarshal_def derived_public_record_def)
  have i: "id_bytes I = multihashing F (derived_public_record F k) ''sha2-256''"
    "pubKey I = Buf (derived_public_record F k)"
    using h(5) by (simp_all add: PeerId_new_def)
  have p: "createFromPubKey F (Buf (derived_public_record F k)) =
             Inr (PeerId_new (id_bytes I) Null (Buf (derived_public_record F k)))"
    "createFromPubKey F (Str (base64_encode (derived_public_record F k))) =
             Inr (PeerId_new (id_bytes I) Null
               (Str (base64_encode (derived_public_record F k))))"
    using i(1) by (simp_all add: createFromPubKey_def base64_decode_encode)
  from h(1-4) m i p show ?thesis
    by blast
qed

theorem createFromPrivKey_id_matches_createFromPubKey_witness:
  "createFromPrivKey example_providers (Str ''CAASAyMFBQ=='') =
     Inr \<lparr>id_bytes = [18, 6, 8, 0, 18, 2, 35, 5], privKey = Str ''CAASAyMFBQ=='',
          pubKey = Buf [8, 0, 18, 2, 35, 5]\<rparr> \<and>
   createFromPubKey example_providers (Buf [8, 0, 18, 2, 35, 5]) =
     Inr \<lparr>id_bytes = [18, 6, 8, 0, 18, 2, 35, 5], privKey = Null,
          pubKey = Buf [8, 0, 18, 2, 35, 5]\<rparr> \<and>
   (\<exists>k. privateKeyFromAsn1 example_providers [CHR 0x23, CHR 0x05, CHR 0x05] = Inr k \<and>
        derived_public_record example_providers k = [8, 0, 18, 2, 35, 5])"
proof -
  let ?I = "\<lparr>id_bytes = [18, 6, 8, 0, 18, 2, 35, 5], privKey = Str ''CAASAyMFBQ=='',
          pubKey = Buf [8, 0, 18, 2, 35, 5]\<rparr>"
  from createFromPrivKey_id_matches_createFromPubKey [OF example_createFromPrivKey]
  obtain buf mpk asnPriv k where
    h: "Buffer_new_base64 (Str ''CAASAyMFBQ=='') = Inr buf"
      "keyUnmarshal (protobuf example_providers) buf = Inr mpk"
      "asn1_fromDer example_providers (toString_binary (Data mpk)) = Inr asnPriv"
      "privateKeyFromAsn1 example_providers asnPriv = Inr k"
      "pubKey ?I = Buf (derived_public_record example_providers k)"
      "createFromPubKey example_providers (Buf (derived_public_record example_providers k)) =
         Inr (PeerId_new (id_bytes ?I) Null (Buf (derived_public_record example_providers k)))"
    by blast
  have b: "Buffer_new_base64 (Str ''CAASAyMFBQ=='') = Inr [8, 0, 18, 3, 35, 5, 5]"
    by code_simp
  have u: "keyUnmarshal (protobuf example_providers) [8, 0, 18, 3, 35, 5, 5] =
      Inr \<lparr>Type = 0, Data = [35, 5, 5]\<rparr>"
    by code_simp
  have a: "asn1_fromDer example_providers (toString_binary [35, 5, 5]) =
      Inr [CHR 0x23, CHR 0x05, CHR 0x05]"
    by code_simp
  from h(1) b have "buf = [8, 0, 18, 3, 35, 5, 5]" by simp
  with h(2) u have "mpk = \<lparr>Type = 0, Data = [35, 5, 5]\<rparr>" by simp
  with h(3) a have "asnPriv = [CHR 0x23, CHR 0x05, CHR 0x05]" by simp
  with h(4) have k: "privateKeyFromAsn1 example_providers [CHR 0x23, CHR 0x05, CHR 0x05] = Inr k"
    by simp
  from h(5) have d: "derived_public_record example_providers k = [8, 0, 18, 2, 35, 5]"
    by simp
  from h(6) d have "createFromPubKey example_providers (Buf [8, 0, 18, 2, 35, 5]) =
     Inr \<lparr>id_bytes = [18, 6, 8, 0, 18, 2, 35, 5], privKey = Null,
          pubKey = Buf [8, 0, 18, 2, 35, 5]\<rparr>"
    by (simp add: PeerId_new_def)
  with example_createFromPrivKey k d show ?thesis
    by blast
qed

text \<open>
  C5: when \<^verbatim>\<open>createFromPrivKey\<close> returns an identity, its private key is the
  caller's input itself, unchanged, and its public key is a Buffer holding the
  public record that the function derives and encodes anew: the record of the DER
  of the public key set from the modulus and the exponent of the parsed private key.
\<close>

theorem createFromPrivKey_keeps_input:
  assumes "createFromPrivKey F v = Inr I"
  shows "privKey I = v \<and>
         (\<exists>buf mpk asnPriv k.
            Buffer_new_base64 v = Inr buf \<and>
            keyUnmarshal (protobuf F) buf = Inr mpk \<and>
            asn1_fromDer F (toString_binary (Data mpk)) = Inr asnPriv \<and>
            privateKeyFromAsn1 F asnPriv = Inr k \<and>
            pubKey I = Buf (derived_public_record F k) \<and>
            keyMarshal (Buffer_from_binary (asn1_toDer F
                (publicKeyToAsn1 F (setPublicKey (priv_n k) (priv_e k))))) ''Public'' =
              Some (derived_public_record F k))"
proof -
  from createFromPrivKey_Inr [OF assms] obtain buf mpk asnPriv k where
    h: "Buffer_new_base64 v = Inr buf" "keyUnmarshal (protobuf F) buf = Inr mpk"
      "asn1_fromDer F (toString_binary (Data mpk)) = Inr asnPriv"
      "privateKeyFromAsn1 F asnPriv = Inr k"
      "I = PeerId_new (multihashing F (derived_public_record F k) ''sha2-256'') v
          (Buf (derived_public_record F k))"
    by auto
  have "privKey I = v" "pubKey I = Buf (derived_public_record F k)"
    using h(5) by (simp_all add: PeerId_new_def)
  moreover have "keyMarshal (Buffer_from_binary (asn1_toDer F
                (publicKeyToAsn1 F (setPublicKey (priv_n k) (priv_e k))))) ''Public'' =
              Some (derived_public_record F k)"
    by (simp add: keyMarshal_def derived_public_record_def)
  ultimately show ?thesis
    using h(1-4) by blast
qed

theorem createFromPrivKey_keeps_input_witness:
  "createFromPrivKey example_providers (Str ''CAASAyMFBQ=='') =
     Inr \<lparr>id_bytes = [18, 6, 8, 0, 18, 2, 35, 5], privKey = Str ''CAASAyMFBQ=='',
          pubKey = Buf [8, 0, 18, 2, 35, 5]\<rparr> \<and>
   privKey \<lparr>id_bytes = [18, 6, 8, 0, 18, 2, 35, 5], privKey = Str ''CAASAyMFBQ=='',
          pubKey = Buf [8, 0, 18, 2, 35, 5]\<rparr> = Str ''CAASAyMFBQ==''"
  using example_createFromPrivKey
    createFromPrivKey_keeps_input [OF example_createFromPrivKey]
  by simp

text \<open>
  C10: when \<^verbatim>\<open>createFromPrivKey\<close> is given a (base64) string, the identity stores
  that string, not a Buffer, so \<^verbatim>\<open>toJSON\<close> succeeds and its \<^verbatim>\<open>privKey\<close>
  field is the string as it was given, not the hex digits of the key bytes.
\<close>

theorem createFromPrivKey_string_shows_in_toJSON:
  assumes "createFromPrivKey F (Str s) = Inr I"
  shows "privKey I = Str s \<and> (\<exists>J. toJSON I = Inr J \<and> json_privKey J = s)"
proof -
  from createFromPrivKey_Inr [OF assms] obtain k where
    "I = PeerId_new (multihashing F (derived_public_record F k) ''sha2-256'') (Str s)
          (Buf (derived_public_record F k))"
    by auto
  then show ?thesis
    by (simp add: PeerId_new_def toJSON_def)
qed

theorem createFromPrivKey_string_shows_in_toJSON_witness:
  "createFromPrivKey example_providers (Str ''CAASAyMFBQ=='') =
     Inr \<lparr>id_bytes = [18, 6, 8, 0, 18, 2, 35, 5], privKey = Str ''CAASAyMFBQ=='',
          pubKey = Buf [8, 0, 18, 2, 35, 5]\<rparr> \<and>
   toJSON \<lparr>id_bytes = [18, 6, 8, 0, 18, 2, 35, 5], privKey = Str ''CAASAyMFBQ=='',
          pubKey = Buf [8, 0, 18, 2, 35, 5]\<rparr> =
     Inr \<lparr>json_id = ''1206080012022305'', json_privKey = ''CAASAyMFBQ=='',
          json_pubKey = ''080012022305''\<rparr> \<and>
   hex_encode (base64_decode ''CAASAyMFBQ=='') = ''08001203230505''"
proof -
  have "toJSON \<lparr>id_bytes = [18, 6, 8, 0, 18, 2, 35, 5], privKey = Str ''CAASAyMFBQ=='',
          pubKey = Buf [8, 0, 18, 2, 35, 5]\<rparr> =
     Inr \<lparr>json_id = ''1206080012022305'', json_privKey = ''CAASAyMFBQ=='',
          json_pubKey = ''080012022305''\<rparr>"
    by code_simp
  moreover have "hex_encode (base64_decode ''CAASAyMFBQ=='') = ''08001203230505''"
    by code_simp
  ultimately show ?thesis
    using example_createFromPrivKey
      createFromPrivKey_string_shows_in_toJSON [OF example_createFromPrivKey]
    by simp
qed

text \<open>
  C9: for every identity, \<^verbatim>\<open>createFromB58String\<close> on its \<^verbatim>\<open>toB58String()\<close>
  returns an identity with the same \<^verbatim>\<open>toBytes()\<close>.
\<close>

theorem createFromB58String_toB58String:
  "\<exists>J. createFromB58String (toB58String I) = Inr J \<and> toBytes J = toBytes I"
  by (simp add: createFromB58String_def toB58String_def base58_decode_encode toBytes_def
      PeerId_new_def)

theorem createFromB58String_toB58String_witness:
  "toB58String (createFromBytes [0, 0, 1, 2, 3]) = ''11Ldp'' \<and>
   (\<exists>J. createFromB58String ''11Ldp'' = Inr J \<and> toBytes J = [0, 0, 1, 2, 3])"
proof -
  have "toB58String (createFromBytes [0, 0, 1, 2, 3]) = ''11Ldp''"
    by (simp add: toB58String_def createFromBytes_def PeerId_new_def base58_encode_def
        to_digits.simps from_digits_def b58_char_def b58_alphabet_def)
  moreover have "toBytes (createFromBytes [0, 0, 1, 2, 3]) = [0, 0, 1, 2, 3]"
    by (simp add: toBytes_def createFromBytes_def PeerId_new_def)
  ultimately show ?thesis
    using createFromB58String_toB58String [of "createFromBytes [0, 0, 1, 2, 3]"]
    by simp
qed

lemma keyMarshal_Public_Private: "keyMarshal p ''Public'' = keyMarshal p ''Private''"
  by (simp add: keyMarshal_def PublicKey_encode_def PrivateKey_encode_def)

text \<open>
  C3, as the code has it: for every payload, the empty one included, and for both
  types \<^verbatim>\<open>'Public'\<close> and \<^verbatim>\<open>'Private'\<close>, \<^verbatim>\<open>keyUnmarshal\<close> of the bytes of
  \<^verbatim>\<open>keyMarshal\<close> returns the record with the type tag \<open>RSA\<close> and exactly the
  payload.  The bytes are the same for both types, so the record does not tell
  which of the two was encoded.
\<close>

theorem keyUnmarshal_keyMarshal:
  assumes "t = ''Public'' \<or> t = ''Private''"
  shows "\<exists>e. keyMarshal p t = Some e \<and>
             keyUnmarshal L e = Inr \<lparr>Type = RSA, Data = p\<rparr> \<and>
             keyMarshal p ''Public'' = Some e \<and> keyMarshal p ''Private'' = Some e"
  using assms
  by (auto simp add: keyMarshal_def keyUnmarshal_def PublicKey_encode_def
      PrivateKey_encode_def PrivateKey_decode_encode)

theorem keyUnmarshal_keyMarshal_witness:
  "keyMarshal [] ''Public'' = Some [8, 0, 18, 0] \<and>
   keyUnmarshal (protobuf example_providers) [8, 0, 18, 0] = Inr \<lparr>Type = RSA, Data = []\<rparr>"
proof -
  have "keyMarshal [] ''Public'' = Some [8, 0, 18, 0]"
    by code_simp
  then show ?thesis
    using keyUnmarshal_keyMarshal [of "''Public''" "[]" "protobuf example_providers"]
    by simp
qed

text \<open>
  C3 as stated asks for the type \<^verbatim>\<open>'Public'\<close> or \<^verbatim>\<open>'Private'\<close> back.  For the
  payload of the one byte 1 both encodings are the same five bytes, and they decode
  to a record whose type tag is 0, the key algorithm.
\<close>

theorem keyUnmarshal_loses_Public_Private:
  "keyMarshal [1] ''Public'' = Some [8, 0, 18, 1, 1] \<and>
   keyMarshal [1] ''Private'' = Some [8, 0, 18, 1, 1] \<and>
   keyUnmarshal (protobuf example_providers) [8, 0, 18, 1, 1] =
     Inr \<lparr>Type = 0, Data = [1]\<rparr> \<and>
   ''Public'' \<noteq> ''Private''"
  by code_simp




text \<open>
  The round trip through JSON for an identity whose private and public key are
  Buffers, as \<^verbatim>\<open>create\<close> and \<^verbatim>\<open>createFromJSON\<close> build them.
\<close>

lemma createFromJSON_toJSON_of_buffers:
  assumes "privKey I = Buf a" and "pubKey I = Buf b"
  shows "\<exists>J. toJSON I = Inr J \<and> createFromJSON m J = Inr I"
  using assms
  by (cases I) (simp add: toJSON_def createFromJSON_def Buffer_from_hex_encode PeerId_new_def)

text \<open>
  C6: \<^verbatim>\<open>createFromJSON(I.toJSON())\<close> should give back the id, the private key and
  the public key of every identity that has all three.  The program misses this for
  the identities that \<^verbatim>\<open>createFromPrivKey\<close> builds from a string: the string is
  stored as it is, \<^verbatim>\<open>toJSON\<close> passes it on where it writes hex for a Buffer, and
  \<^verbatim>\<open>createFromJSON\<close> reads it as hex.  The private key that comes back is the
  Buffer of the leading hex pairs of the base64 text (or the call throws, for a text
  of odd length); id and public key come back as they were.
\<close>

theorem createFromPrivKey_toJSON_createFromJSON:
  assumes "createFromPrivKey F (Str s) = Inr I"
  shows "\<exists>J. toJSON I = Inr J \<and> json_privKey J = s \<and>
           createFromJSON OddLengthTruncates J = Inr (I\<lparr>privKey := Buf (hex_decode s)\<rparr>) \<and>
           createFromJSON OddLengthThrows J =
             (if odd (length s) then Inl EncodingError
              else Inr (I\<lparr>privKey := Buf (hex_decode s)\<rparr>))"
proof -
  from createFromPrivKey_Inr [OF assms] obtain k where
    I: "I = PeerId_new (multihashing F (derived_public_record F k) ''sha2-256'') (Str s)
          (Buf (derived_public_record F k))"
    by auto
  have x: "Buffer_from_hex OddLengthTruncates s = Inr (hex_decode s)"
    "Buffer_from_hex OddLengthThrows s =
       (if odd (length s) then Inl EncodingError else Inr (hex_decode s))"
    by (simp_all add: Buffer_from_hex_def)
  from I show ?thesis
    by (simp add: PeerId_new_def toJSON_def createFromJSON_def Buffer_from_hex_encode x)
qed

lemma createFromJSON_toJSON_string_privKey:
  "toJSON \<lparr>id_bytes = [18, 6, 8, 0, 18, 2, 35, 5], privKey = Str ''CAASAyMFBQ=='',
       pubKey = Buf [8, 0, 18, 2, 35, 5]\<rparr> =
     Inr \<lparr>json_id = ''1206080012022305'', json_privKey = ''CAASAyMFBQ=='',
          json_pubKey = ''080012022305''\<rparr> \<and>
   createFromJSON OddLengthThrows
       \<lparr>json_id = ''1206080012022305'', json_privKey = ''CAASAyMFBQ=='',
        json_pubKey = ''080012022305''\<rparr> =
     Inr \<lparr>id_bytes = [18, 6, 8, 0, 18, 2, 35, 5], privKey = Buf [202],
          pubKey = Buf [8, 0, 18, 2, 35, 5]\<rparr> \<and>
   createFromJSON OddLengthTruncates
       \<lparr>json_id = ''1206080012022305'', json_privKey = ''CAASAyMFBQ=='',
        json_pubKey = ''080012022305''\<rparr> =
     Inr \<lparr>id_bytes = [18, 6, 8, 0, 18, 2, 35, 5], privKey = Buf [202],
          pubKey = Buf [8, 0, 18, 2, 35, 5]\<rparr> \<and>
   base64_decode ''CAASAyMFBQ=='' = [8, 0, 18, 3, 35, 5, 5] \<and>
   Buf [202] \<noteq> Str ''CAASAyMFBQ=='' \<and>
   [202] \<noteq> [8, 0, 18, 3, 35, 5, 5 :: byte]"
  by code_simp

theorem createFromPrivKey_toJSON_createFromJSON_witness:
  "createFromPrivKey example_providers (Str ''CAASAyMFBQ=='') =
     Inr \<lparr>id_bytes = [18, 6, 8, 0, 18, 2, 35, 5], privKey = Str ''CAASAyMFBQ=='',
          pubKey = Buf [8, 0, 18, 2, 35, 5]\<rparr> \<and>
   toJSON \<lparr>id_bytes = [18, 6, 8, 0, 18, 2, 35, 5], privKey = Str ''CAASAyMFBQ=='',
          pubKey = Buf [8, 0, 18, 2, 35, 5]\<rparr> =
     Inr \<lparr>json_id = ''1206080012022305'', json_privKey = ''CAASAyMFBQ=='',
          json_pubKey = ''080012022305''\<rparr> \<and>
   createFromJSON OddLengthThrows
       \<lparr>json_id = ''1206080012022305'', json_privKey = ''CAASAyMFBQ=='',
        json_pubKey = ''080012022305''\<rparr> =
     Inr \<lparr>id_bytes = [18, 6, 8, 0, 18, 2, 35, 5], privKey = Buf [202],
          pubKey = Buf [8, 0, 18, 2, 35, 5]\<rparr> \<and>
   base64_decode ''CAASAyMFBQ=='' = [8, 0, 18, 3, 35, 5, 5]"
proof -
  let ?I = "\<lparr>id_bytes = [18, 6, 8, 0, 18, 2, 35, 5], privKey = Str ''CAASAyMFBQ=='',
          pubKey = Buf [8, 0, 18, 2, 35, 5]\<rparr>"
  let ?J = "\<lparr>json_id = ''1206080012022305'', json_privKey = ''CAASAyMFBQ=='',
          json_pubKey = ''080012022305''\<rparr>"
  from createFromPrivKey_toJSON_createFromJSON [OF example_createFromPrivKey]
  obtain J where
    h: "toJSON ?I = Inr J"
      "createFromJSON OddLengthThrows J =
         (if odd (length ''CAASAyMFBQ=='') then Inl EncodingError
          else Inr (?I\<lparr>privKey := Buf (hex_decode ''CAASAyMFBQ=='')\<rparr>))"
    by blast
  have j: "toJSON ?I = Inr ?J"
    using createFromJSON_toJSON_string_privKey by blast
  have x: "hex_decode ''CAASAyMFBQ=='' = [202]"
    by code_simp
  from h(1) j have "J = ?J" by simp
  with h(2) [unfolded x] have "createFromJSON OddLengthThrows ?J =
     Inr \<lparr>id_bytes = [18, 6, 8, 0, 18, 2, 35, 5], privKey = Buf [202],
          pubKey = Buf [8, 0, 18, 2, 35, 5]\<rparr>"
    by simp
  moreover have "base64_decode ''CAASAyMFBQ=='' = [8, 0, 18, 3, 35, 5, 5]"
    using createFromJSON_toJSON_string_privKey by blast
  ultimately show ?thesis
    using example_createFromPrivKey j by blast
qed

lemma hex_decode_stops:
  "hex2bin c1 = None \<or> hex2bin c2 = None \<Longrightarrow>
   hex_decode (hex_encode bs @ c1 # c2 # rest) = bs"
proof (induction bs)
  case Nil
  then show ?case by (auto split: option.splits)
next
  case (Cons b bs)
  have "unat b div 16 < 16" and "unat b mod 16 < 16"
    using unat_byte_less [of b] by simp_all
  then show ?case
    using Cons by (simp add: hex2bin_hex_digit hex_byte)
qed

text \<open>
  C8, as the code has it: \<^verbatim>\<open>createFromB58String\<close> fails with \<open>EncodingError\<close> for
  every string with a character outside the base58 alphabet.
  \<^verbatim>\<open>createFromHexString\<close> does not fail for a bad digit: on every string of even
  length it returns the identity of the bytes read up to the first pair that is not
  two hex digits.
\<close>

theorem text_ids_with_bad_characters:
  "(c \<in> set s \<and> c \<notin> set b58_alphabet \<longrightarrow> createFromB58String s = Inl EncodingError) \<and>
   (even (length s) \<longrightarrow>
      createFromHexString m s = Inr (PeerId_new (hex_decode s) Undefined Undefined)) \<and>
   (hex2bin c1 = None \<or> hex2bin c2 = None \<longrightarrow>
      createFromHexString m (hex_encode bs @ c1 # c2 # hex_encode bs') =
        Inr (PeerId_new bs Undefined Undefined))"
proof (intro conjI impI)
  assume "c \<in> set s \<and> c \<notin> set b58_alphabet"
  then show "createFromB58String s = Inl EncodingError"
    using base58_decode_invalid [of c s] by (simp add: createFromB58String_def)
next
  assume "even (length s)"
  then show "createFromHexString m s = Inr (PeerId_new (hex_decode s) Undefined Undefined)"
    by (simp add: createFromHexString_def Buffer_from_hex_def)
next
  assume "hex2bin c1 = None \<or> hex2bin c2 = None"
  then have "hex_decode (hex_encode bs @ c1 # c2 # hex_encode bs') = bs"
    by (rule hex_decode_stops)
  then show "createFromHexString m (hex_encode bs @ c1 # c2 # hex_encode bs') =
        Inr (PeerId_new bs Undefined Undefined)"
    by (simp add: createFromHexString_def Buffer_from_hex_def length_hex_encode)
qed

theorem text_ids_with_bad_characters_witness:
  "createFromB58String ''1l'' = Inl EncodingError \<and>
   createFromHexString OddLengthThrows ''12zz'' = Inr (PeerId_new [18] Undefined Undefined) \<and>
   createFromHexString OddLengthThrows ''12z034'' = Inr (PeerId_new [18] Undefined Undefined)"
proof -
  have a: "CHR ''l'' \<in> set ''1l'' \<and> CHR ''l'' \<notin> set b58_alphabet"
    by (simp add: b58_alphabet_def)
  have b: "even (length ''12zz'')"
    by simp
  have c: "hex2bin CHR ''z'' = None \<or> hex2bin CHR ''0'' = None"
    by (simp add: hex2bin_def)
  have d: "hex_decode ''12zz'' = [18]" "hex_encode [18] = ''12''" "hex_encode [52] = ''34''"
    by code_simp+
  note inst1 = text_ids_with_bad_characters
      [of "CHR ''l''" "''1l''" OddLengthThrows "CHR ''z''" "CHR ''0''" "[18]" "[52]",
       unfolded d]
  note inst2 = text_ids_with_bad_characters
      [of "CHR ''l''" "''12zz''" OddLengthThrows "CHR ''z''" "CHR ''0''" "[18]" "[52]",
       unfolded d]
  from inst1 a have 1: "createFromB58String ''1l'' = Inl EncodingError"
    by blast
  from inst2 b have 2:
    "createFromHexString OddLengthThrows ''12zz'' = Inr (PeerId_new [18] Undefined Undefined)"
    by blast
  from inst1 c have
    "createFromHexString OddLengthThrows (''12'' @ CHR ''z'' # CHR ''0'' # ''34'') =
       Inr (PeerId_new [18] Undefined Undefined)"
    by blast
  then have 3:
    "createFromHexString OddLengthThrows ''12z034'' = Inr (PeerId_new [18] Undefined Undefined)"
    by simp
  from 1 2 3 show ?thesis
    by (intro conjI)
qed

text \<open>
  C8 as stated has \<^verbatim>\<open>createFromHexString\<close> fail for every string with an invalid
  hex digit.  On \<^verbatim>\<open>0z\<close> it returns an identity with the empty id, whichever way
  the runtime treats strings of odd length.
\<close>

theorem createFromHexString_accepts_bad_digit:
  "createFromHexString OddLengthThrows ''0z'' = Inr (PeerId_new [] Undefined Undefined) \<and>
   createFromHexString OddLengthTruncates ''0z'' = Inr (PeerId_new [] Undefined Undefined) \<and>
   hex2bin CHR ''z'' = None"
  by code_simp

end
